theory Spec2Isabelle
  imports Complex_Main
begin

section \<open>LocalIndex: an in-memory vector index (semantic\_router/index/local.py)\<close>

text \<open>
  The class \<^verbatim>\<open>LocalIndex\<close> keeps three fields: \<^verbatim>\<open>index\<close> (a two-dimensional numpy
  array or \<^verbatim>\<open>None\<close>), \<^verbatim>\<open>routes\<close> and \<^verbatim>\<open>utterances\<close> (Python lists or \<^verbatim>\<open>None\<close>).
  Every method is embedded as a function from the object before the call to the outcome
  of the call (a returned value or a raised exception) paired with the object after the
  call: an exception leaves behind whatever assignments to \<^verbatim>\<open>self\<close> were already made.

  Conventions of the embedding:
  \<^item> the name \<^verbatim>\<open>np\<close> is read as the numpy module (the file uses it without importing it);
  \<^item> array entries and similarity scores are real numbers;
  \<^item> a vector handed to \<^verbatim>\<open>add\<close> or \<^verbatim>\<open>query\<close> is a one-dimensional array, a list of reals;
  \<^item> \<^verbatim>\<open>top_k\<close> is a count, a natural number.
\<close>

subsection \<open>Exceptions and outcomes\<close>

datatype py_error =
    ValueError string
  | NameError string
  | TypeError
  | AttributeError
  | IndexError
  | AxisError

datatype 'a outcome = Raised py_error | Returned 'a

subsection \<open>The numpy operations the class calls\<close>

text \<open>
  A two-dimensional array of shape \<open>(length (rows a), ncols a)\<close>. The number of columns is
  kept apart from the rows because an array with no rows still has a second dimension.
\<close>

record ndarray =
  ncols :: nat
  rows :: "real list list"

text \<open>\<^verbatim>\<open>vector.reshape(1, -1)\<close> on a one-dimensional vector: one row holding the vector.\<close>

definition reshape_row :: "real list \<Rightarrow> ndarray" where
  "reshape_row vector = \<lparr>ncols = length vector, rows = [vector]\<rparr>"

text \<open>
  \<^verbatim>\<open>np.vstack([a, vector])\<close>: the vector becomes a row below the rows of \<open>a\<close>; numpy raises
  ValueError when its length is not the number of columns of \<open>a\<close>.
\<close>

definition vstack :: "ndarray \<Rightarrow> real list \<Rightarrow> py_error + ndarray" where
  "vstack a vector =
     (if length vector = ncols a then Inr (a\<lparr>rows := rows a @ [vector]\<rparr>)
      else Inl (ValueError ''all the input array dimensions except for the concatenation axis must match exactly''))"

text \<open>
  \<^verbatim>\<open>np.delete(a, idx, axis=0)\<close> with a list of row numbers: a new array without those rows,
  IndexError when a row number is out of bounds. On \<^verbatim>\<open>None\<close> (a zero-dimensional array)
  axis 0 does not exist.
\<close>

definition np_delete :: "ndarray option \<Rightarrow> nat list \<Rightarrow> py_error + ndarray" where
  "np_delete arr idx =
     (case arr of
        None \<Rightarrow> Inl AxisError
      | Some a \<Rightarrow>
          if list_all (\<lambda>i. i < length (rows a)) idx
          then Inr (a\<lparr>rows := map snd (filter (\<lambda>(i, r). i \<notin> set idx) (enumerate 0 (rows a)))\<rparr>)
          else Inl IndexError)"

subsection \<open>The collaborator functions of semantic\_router.linear\<close>

text \<open>
  Modelled from the spec: \<^verbatim>\<open>similarity_matrix\<close> of the module semantic\_router.linear is
  not part of the sources. The spec: it "computes pairwise similarity scores between one
  or more query vectors and the stored corpus", with a pluggable scoring function. The
  scoring function is the parameter \<open>score\<close>; the result holds one score per stored row.
\<close>

definition similarity_matrix ::
  "(real list \<Rightarrow> real list \<Rightarrow> real) \<Rightarrow> real list \<Rightarrow> ndarray \<Rightarrow> real list" where
  "similarity_matrix score query_vector corpus = map (score query_vector) (rows corpus)"

text \<open>
  Modelled from the spec: \<^verbatim>\<open>top_scores\<close> of the module semantic\_router.linear is not part
  of the sources. The spec: it "extracts the k highest scores and their positions from a
  similarity matrix"; scores come back descending by similarity, ties stable by index
  order, and at most the available count when \<open>k\<close> exceeds it.
\<close>

definition top_scores :: "real list \<Rightarrow> nat \<Rightarrow> real list \<times> nat list" where
  "top_scores sim k =
     (let best = take k (sort_key (\<lambda>(i, x). - x) (enumerate 0 sim))
      in (map snd best, map fst best))"

text \<open>The dot product, one scoring function.\<close>

definition dot :: "real list \<Rightarrow> real list \<Rightarrow> real" where
  "dot xs ys = sum_list (map (\<lambda>(x, y). x * y) (zip xs ys))"

subsection \<open>The class\<close>

record local_index =
  index :: "ndarray option"
  routes :: "string list option"
  utterances :: "string list option"

text \<open>\<^verbatim>\<open>LocalIndex()\<close>: all three constructor arguments default to \<^verbatim>\<open>None\<close>.\<close>

definition fresh :: local_index where
  "fresh = \<lparr>index = None, routes = None, utterances = None\<rparr>"

text \<open>
  \<^verbatim>\<open>add\<close>: the first branch stores the vector as a one-row array and one-element lists.
  The second stacks the vector, then appends to the two lists; \<^verbatim>\<open>None.append\<close> raises
  AttributeError. A failing \<^verbatim>\<open>np.vstack\<close> raises before \<^verbatim>\<open>self.index\<close> is assigned.
\<close>

definition add :: "local_index \<Rightarrow> string \<Rightarrow> string \<Rightarrow> real list \<Rightarrow> unit outcome \<times> local_index" where
  "add self route utterance vector =
     (case index self of
        None \<Rightarrow>
          (Returned (),
           self\<lparr>index := Some (reshape_row vector),
                routes := Some [route],
                utterances := Some [utterance]\<rparr>)
      | Some a \<Rightarrow>
          (case vstack a vector of
             Inl e \<Rightarrow> (Raised e, self)
           | Inr a' \<Rightarrow>
               (let s1 = self\<lparr>index := Some a'\<rparr> in
                case routes s1 of
                  None \<Rightarrow> (Raised AttributeError, s1)
                | Some rs \<Rightarrow>
                    (let s2 = s1\<lparr>routes := Some (rs @ [route])\<rparr> in
                     case utterances s2 of
                       None \<Rightarrow> (Raised AttributeError, s2)
                     | Some us \<Rightarrow> (Returned (), s2\<lparr>utterances := Some (us @ [utterance])\<rparr>)))))"

text \<open>
  \<^verbatim>\<open>get_routes\<close>: \<^verbatim>\<open>list(zip(self.routes, self.utterances))\<close>; \<^verbatim>\<open>zip\<close> raises TypeError
  on \<^verbatim>\<open>None\<close>, and stops at the end of the shorter list.
\<close>

definition get_routes :: "local_index \<Rightarrow> (string \<times> string) list outcome \<times> local_index" where
  "get_routes self =
     (case routes self of
        None \<Rightarrow> (Raised TypeError, self)
      | Some rs \<Rightarrow>
          (case utterances self of
             None \<Rightarrow> (Raised TypeError, self)
           | Some us \<Rightarrow> (Returned (zip rs us), self)))"

record description =
  type_name :: string
  dimensions :: nat
  vectors :: nat

definition describe :: "local_index \<Rightarrow> description outcome \<times> local_index" where
  "describe self =
     (Returned \<lparr>type_name = ''local'',
                dimensions = (case index self of Some a \<Rightarrow> ncols a | None \<Rightarrow> 0),
                vectors = (case index self of Some a \<Rightarrow> length (rows a) | None \<Rightarrow> 0)\<rparr>,
      self)"

text \<open>
  \<^verbatim>\<open>[self.routes[i] for i in indices]\<close>: nothing is subscripted when there are no indices;
  subscripting \<^verbatim>\<open>None\<close> raises TypeError, an index past the end raises IndexError.
\<close>

fun routes_at :: "string list option \<Rightarrow> nat list \<Rightarrow> py_error + string list" where
  "routes_at rs [] = Inr []"
| "routes_at None (i # is) = Inl TypeError"
| "routes_at (Some rs) (i # is) =
     (if i < length rs
      then (case routes_at (Some rs) is of Inl e \<Rightarrow> Inl e | Inr out \<Rightarrow> Inr (rs ! i # out))
      else Inl IndexError)"

definition query ::
  "(real list \<Rightarrow> real list \<Rightarrow> real) \<Rightarrow> local_index \<Rightarrow> real list \<Rightarrow> nat \<Rightarrow>
     (real list \<times> string list) outcome \<times> local_index" where
  "query score self query_vector top_k =
     (case index self of
        None \<Rightarrow> (Raised (ValueError ''Index is not populated.''), self)
      | Some a \<Rightarrow>
          (let sim_matrix = similarity_matrix score query_vector a;
               (scores, indices) = top_scores sim_matrix top_k
           in case routes_at (routes self) indices of
                Inl e \<Rightarrow> (Raised e, self)
              | Inr rts \<Rightarrow> (Returned (scores, rts), self)))"

text \<open>
  \<^verbatim>\<open>delete\<close>, statement by statement. The last statement,
  \<^verbatim>\<open>[utterance for utterance in self.utterances if self.routes[i] != route_name]\<close>,
  names a variable \<^verbatim>\<open>i\<close> that is bound nowhere in its scope (the \<^verbatim>\<open>i\<close> of the first
  comprehension is local to that comprehension): the condition raises NameError as soon
  as it is evaluated, that is, whenever \<^verbatim>\<open>self.utterances\<close> has an element. By then
  \<^verbatim>\<open>self.index\<close> and \<^verbatim>\<open>self.routes\<close> are already assigned. Iterating \<^verbatim>\<open>None\<close> raises
  TypeError.
\<close>

definition delete :: "local_index \<Rightarrow> string \<Rightarrow> unit outcome \<times> local_index" where
  "delete self route_name =
     (case routes self of
        None \<Rightarrow> (Raised (ValueError ''Routes are not populated.''), self)
      | Some rs \<Rightarrow>
          (let delete_idx = map fst (filter (\<lambda>(i, route). route = route_name) (enumerate 0 rs)) in
           case np_delete (index self) delete_idx of
             Inl e \<Rightarrow> (Raised e, self)
           | Inr a' \<Rightarrow>
               (let s1 = self\<lparr>index := Some a'\<rparr>;
                    s2 = s1\<lparr>routes := Some (filter (\<lambda>route. route \<noteq> route_name) rs)\<rparr>
                in case utterances s2 of
                     None \<Rightarrow> (Raised TypeError, s2)
                   | Some [] \<Rightarrow> (Returned (), s2\<lparr>utterances := Some []\<rparr>)
                   | Some (u # us) \<Rightarrow> (Raised (NameError ''i''), s2))))"

subsection \<open>Sequences of calls\<close>

text \<open>
  A caller that goes on after an exception works with the object the failed call left
  behind. \<open>run\<close> performs the mutating calls of a list one after the other.
\<close>

datatype call = Add string string "real list" | Delete string

fun exec :: "call \<Rightarrow> local_index \<Rightarrow> local_index" where
  "exec (Add route utterance vector) self = snd (add self route utterance vector)"
| "exec (Delete route_name) self = snd (delete self route_name)"

definition run :: "call list \<Rightarrow> local_index \<Rightarrow> local_index" where
  "run calls self = fold exec calls self"

text \<open>The number of stored entries: the rows of the array, none without an array.\<close>

definition entry_count :: "local_index \<Rightarrow> nat" where
  "entry_count self = (case index self of None \<Rightarrow> 0 | Some a \<Rightarrow> length (rows a))"

text \<open>
  The state a sequence of calls keeps between the array and the route list: both are
  \<^verbatim>\<open>None\<close> together with the utterances, or the route list has one label per row.
\<close>

definition aligned :: "local_index \<Rightarrow> bool" where
  "aligned self =
     (case index self of
        None \<Rightarrow> routes self = None \<and> utterances self = None
      | Some a \<Rightarrow>
          (case routes self of
             None \<Rightarrow> False
           | Some rs \<Rightarrow> length rs = length (rows a) \<and> utterances self \<noteq> None))"

text \<open>
  Whether a call is an \<^verbatim>\<open>add\<close>, and whether it is an \<^verbatim>\<open>add\<close> of a vector of a given
  dimension.
\<close>

fun is_add :: "call \<Rightarrow> bool" where
  "is_add (Add route utterance vector) = True"
| "is_add (Delete route_name) = False"

fun adds_vector_of :: "nat \<Rightarrow> call \<Rightarrow> bool" where
  "adds_vector_of D (Add route utterance vector) = (length vector = D)"
| "adds_vector_of D (Delete route_name) = False"

section \<open>Evaluation and auxiliary facts\<close>

lemmas eval_defs = add_def delete_def np_delete_def vstack_def reshape_row_def run_def fresh_def
  describe_def get_routes_def enumerate_eq_zip entry_count_def

subsection \<open>Deleting rows by number is filtering rows by label\<close>

lemma delete_idx_mem:
  "i \<in> set (map fst (filter (\<lambda>(i, route). route = name) (enumerate 0 rs))) \<longleftrightarrow>
   i < length rs \<and> rs ! i = name"
  by (force simp: enumerate_eq_zip set_zip)

lemma kept_rows_snoc:
  "length rs = length xs \<Longrightarrow>
   map snd (filter (\<lambda>(i, r). \<not> (i < length rs \<and> rs ! i = name)) (zip [0..<length xs] xs)) =
   map snd (filter (\<lambda>(route, x). route \<noteq> name) (zip rs xs))"
proof (induction xs arbitrary: rs rule: rev_induct)
  case Nil
  then show ?case by simp
next
  case (snoc x xs)
  then obtain r rs' where rs: "rs = rs' @ [r]" and len: "length rs' = length xs"
    by (cases rs rule: rev_cases) auto
  have eq: "filter (\<lambda>(i, y). \<not> (i < length rs \<and> rs ! i = name)) (zip [0..<length xs] xs) =
            filter (\<lambda>(i, y). \<not> (i < length rs' \<and> rs' ! i = name)) (zip [0..<length xs] xs)"
    by (rule filter_cong) (auto simp: rs len in_set_zip nth_append)
  show ?case
    using snoc.IH [OF len] eq len by (simp add: rs nth_append)
qed

lemma kept_rows:
  assumes "length rs = length xs"
  shows "map snd (filter (\<lambda>(i, r). i \<notin> set (map fst (filter (\<lambda>(i, route). route = name) (enumerate 0 rs))))
                   (enumerate 0 xs)) =
         map snd (filter (\<lambda>(route, x). route \<noteq> name) (zip rs xs))"
  unfolding delete_idx_mem
  using kept_rows_snoc [OF assms, of name] by (simp add: enumerate_eq_zip)

lemma length_kept:
  "length rs = length xs \<Longrightarrow>
   length (filter (\<lambda>(route, x). route \<noteq> name) (zip rs xs)) = length (filter (\<lambda>route. route \<noteq> name) rs)"
  by (induction rs xs rule: list_induct2) auto

lemma delete_idx_in_range:
  "list_all (\<lambda>i. i < length rs) (map fst (filter (\<lambda>(i, route). route = name) (enumerate 0 rs)))"
  by (auto simp: list_all_iff enumerate_eq_zip in_set_zip)

lemma delete_aligned_state:
  assumes "index self = Some a" "routes self = Some rs" "length rs = length (rows a)"
  shows "index (snd (delete self name)) =
           Some (a\<lparr>rows := map snd (filter (\<lambda>(route, x). route \<noteq> name) (zip rs (rows a)))\<rparr>)"
    and "routes (snd (delete self name)) = Some (filter (\<lambda>route. route \<noteq> name) rs)"
    and "utterances (snd (delete self name)) = utterances self"
  using assms delete_idx_in_range [of rs name] kept_rows [of rs "rows a" name]
  by (auto simp: delete_def np_delete_def Let_def split: option.splits list.splits)

lemma aligned_fresh: "aligned fresh"
  by (simp add: aligned_def fresh_def)

lemma aligned_add: "aligned self \<Longrightarrow> aligned (snd (add self route utterance vector))"
  by (auto simp: aligned_def add_def vstack_def reshape_row_def Let_def split: option.splits)

lemma aligned_delete:
  assumes "aligned self"
  shows "aligned (snd (delete self name))"
proof (cases "index self")
  case None
  with assms show ?thesis by (simp add: aligned_def delete_def)
next
  case (Some a)
  with assms obtain rs where rs: "routes self = Some rs" "length rs = length (rows a)"
    and us: "utterances self \<noteq> None"
    by (auto simp: aligned_def split: option.splits)
  show ?thesis
    using delete_aligned_state [OF Some rs, of name] us length_kept [of rs "rows a" name] rs(2)
    by (simp add: aligned_def)
qed

lemma aligned_exec: "aligned self \<Longrightarrow> aligned (exec c self)"
  by (cases c) (simp_all add: aligned_add aligned_delete)

lemma aligned_run: "aligned self \<Longrightarrow> aligned (run calls self)"
  unfolding run_def by (induction calls arbitrary: self) (simp_all add: aligned_exec)

lemma index_exec_None:
  "aligned self \<Longrightarrow> index (exec c self) = None \<longleftrightarrow> index self = None \<and> \<not> is_add c"
  by (cases c) (auto simp: aligned_def add_def delete_def np_delete_def vstack_def Let_def
      delete_idx_in_range split: option.splits list.splits)

lemma index_run_None:
  "aligned self \<Longrightarrow> index (run calls self) = None \<longleftrightarrow> index self = None \<and> \<not> list_ex is_add calls"
  unfolding run_def
proof (induction calls arbitrary: self)
  case Nil
  then show ?case by simp
next
  case (Cons c calls)
  then show ?case
    using index_exec_None [of self c] aligned_exec [of self c] by auto
qed

lemma routes_None_iff: "aligned self \<Longrightarrow> routes self = None \<longleftrightarrow> index self = None"
  by (auto simp: aligned_def split: option.splits)

lemma run_deletes_fresh: "\<not> list_ex is_add calls \<Longrightarrow> run calls fresh = fresh"
  unfolding run_def
proof (induction calls)
  case Nil
  then show ?case by simp
next
  case (Cons c calls)
  then show ?case by (cases c) (simp_all add: delete_def fresh_def)
qed

lemma query_not_populated_iff:
  "fst (query score self q k) = Raised (ValueError ''Index is not populated.'') \<longleftrightarrow> index self = None"
proof (cases "index self")
  case None
  then show ?thesis by (simp add: query_def)
next
  case (Some a)
  obtain scores indices where ts: "top_scores (similarity_matrix score q a) k = (scores, indices)"
    by (cases "top_scores (similarity_matrix score q a) k")
  have "routes_at rs is \<noteq> Inl (ValueError m)" for rs "is" m
    by (induction rs "is" rule: routes_at.induct) (auto split: sum.splits)
  then show ?thesis
    using Some ts by (auto simp: query_def split: sum.splits)
qed

lemma delete_not_populated_iff:
  "fst (delete self name) = Raised (ValueError ''Routes are not populated.'') \<longleftrightarrow> routes self = None"
  by (auto simp: delete_def np_delete_def Let_def split: option.splits list.splits if_splits)

lemma run_adds_populated:
  assumes "list_all (adds_vector_of (ncols a)) calls"
    and "index self = Some a" and "routes self \<noteq> None" and "utterances self \<noteq> None"
  shows "\<exists>a'. index (run calls self) = Some a' \<and> ncols a' = ncols a \<and>
              length (rows a') = length (rows a) + length calls"
  using assms
proof (induction calls arbitrary: self a)
  case Nil
  then show ?case by (simp add: run_def)
next
  case (Cons c calls)
  then obtain route utterance vector where c: "c = Add route utterance vector"
    and len: "length vector = ncols a"
    by (cases c) auto
  let ?a = "a\<lparr>rows := rows a @ [vector]\<rparr>"
  have s: "index (exec c self) = Some ?a" "routes (exec c self) \<noteq> None"
    "utterances (exec c self) \<noteq> None"
    using Cons.prems(2-4) len by (auto simp: c add_def vstack_def)
  have "list_all (adds_vector_of (ncols ?a)) calls"
    using Cons.prems(1) by simp
  from Cons.IH [OF this s] show ?case
    by (simp add: run_def)
qed

subsection \<open>The selection of the k highest scores\<close>

lemma routes_at_nth:
  "list_all (\<lambda>i. i < length rs) is \<Longrightarrow> routes_at (Some rs) is = Inr (map (\<lambda>i. rs ! i) is)"
  by (induction "is") simp_all

lemma top_scores_members:
  assumes "top_scores sim k = (scores, indices)"
  shows "list_all (\<lambda>i. i < length sim) indices" and "scores = map (\<lambda>i. sim ! i) indices"
proof -
  define best where "best = take k (sort_key (\<lambda>(i, x). - x) (enumerate 0 sim))"
  have sc: "scores = map snd best" and ix: "indices = map fst best"
    using assms by (simp_all add: top_scores_def best_def Let_def)
  have mem: "i < length sim \<and> x = sim ! i" if "(i, x) \<in> set best" for i x
  proof -
    from that have "(i, x) \<in> set (enumerate 0 sim)"
      unfolding best_def using in_set_takeD by fastforce
    then show ?thesis
      by (auto simp: in_set_enumerate_eq)
  qed
  show "list_all (\<lambda>i. i < length sim) indices"
    unfolding ix list_all_iff using mem by auto
  show "scores = map (\<lambda>i. sim ! i) indices"
    unfolding sc ix using mem by (auto simp: map_eq_conv)
qed

lemma top_scores_length:
  "top_scores sim k = (scores, indices) \<Longrightarrow> length indices = min k (length sim)"
  by (auto simp: top_scores_def Let_def)

lemma top_scores_distinct:
  assumes "top_scores sim k = (scores, indices)"
  shows "distinct indices"
proof -
  have "distinct (map fst (enumerate 0 sim))"
    by simp
  then have "distinct (enumerate 0 sim) \<and> inj_on fst (set (enumerate 0 sim))"
    by (simp only: distinct_map)
  then have "distinct (map fst (sort_key (\<lambda>(i, x). - x) (enumerate 0 sim)))"
    by (simp add: distinct_map)
  then have "distinct (take k (map fst (sort_key (\<lambda>(i, x). - x) (enumerate 0 sim))))"
    by (rule distinct_take)
  then show ?thesis
    using assms by (auto simp: top_scores_def Let_def take_map)
qed

lemma top_scores_descending:
  assumes "top_scores sim k = (scores, indices)"
  shows "sorted_wrt (\<lambda>x y. y \<le> x) scores"
proof -
  let ?key = "\<lambda>(i::nat, x::real). - x"
  have "sorted (map ?key (sort_key ?key (enumerate 0 sim)))"
    by (rule sorted_sort_key)
  then have "sorted (take k (map ?key (sort_key ?key (enumerate 0 sim))))"
    by (rule sorted_wrt_take)
  then have "sorted (map uminus scores)"
    using assms by (auto simp: top_scores_def Let_def take_map case_prod_unfold comp_def)
  then show ?thesis
    by (simp add: sorted_wrt_map)
qed

lemma top_scores_highest:
  assumes "top_scores sim k = (scores, indices)"
    and "j < length sim" "j \<notin> set indices" "i \<in> set indices"
  shows "sim ! j \<le> sim ! i"
proof -
  let ?key = "\<lambda>(i::nat, x::real). - x"
  let ?all = "sort_key ?key (enumerate 0 sim)"
  have ix: "indices = map fst (take k ?all)"
    using assms(1) by (auto simp: top_scores_def Let_def)
  have "sorted (map ?key (take k ?all @ drop k ?all))"
    by simp
  then have le: "?key p \<le> ?key q" if "p \<in> set (take k ?all)" "q \<in> set (drop k ?all)" for p q
    using that unfolding map_append sorted_append by auto
  have "(j, sim ! j) \<in> set ?all"
    using assms(2) by (simp add: in_set_enumerate_eq)
  then have "(j, sim ! j) \<in> set (take k ?all) \<union> set (drop k ?all)"
    by (simp only: set_append [symmetric] append_take_drop_id)
  moreover have "(j, sim ! j) \<notin> set (take k ?all)"
    using assms(3) unfolding ix by force
  ultimately have q: "(j, sim ! j) \<in> set (drop k ?all)"
    by simp
  obtain x where p: "(i, x) \<in> set (take k ?all)"
    using assms(4) unfolding ix by auto
  then have "(i, x) \<in> set (enumerate 0 sim)"
    using in_set_takeD by fastforce
  then have "x = sim ! i"
    by (auto simp: in_set_enumerate_eq)
  with le [OF p q] show ?thesis
    by simp
qed

section \<open>The claims\<close>

text \<open>
  Claim C1 (alignment of the three sequences after every add and delete). The code breaks
  it: on a fresh index, \<^verbatim>\<open>add("a", "u", [1, 0])\<close> followed by \<^verbatim>\<open>delete("a")\<close> raises
  NameError in the last statement of \<^verbatim>\<open>delete\<close> and leaves an array with no rows, an empty
  route list and a one-element utterance list.
\<close>

theorem delete_breaks_alignment:
  "delete (run [Add ''a'' ''u'' [1, 0]] fresh) ''a'' =
     (Raised (NameError ''i''),
      \<lparr>index = Some \<lparr>ncols = 2, rows = []\<rparr>, routes = Some [], utterances = Some [''u'']\<rparr>)"
  by (simp add: eval_defs)

text \<open>
  Claim C2 (delete removes every matching entry from all three sequences). With routes
  a, b, a stored, \<^verbatim>\<open>delete("a")\<close> leaves one row and the one route b, and \<^verbatim>\<open>describe\<close>
  then reports one vector, but the call raises NameError and all three utterances stay.
\<close>

theorem delete_matches_leaves_utterances:
  "delete (run [Add ''a'' ''u1'' [1, 0], Add ''b'' ''u2'' [0, 1], Add ''a'' ''u3'' [1, 1]] fresh) ''a'' =
     (Raised (NameError ''i''),
      \<lparr>index = Some \<lparr>ncols = 2, rows = [[0, 1]]\<rparr>, routes = Some [''b''],
       utterances = Some [''u1'', ''u2'', ''u3'']\<rparr>) \<and>
   fst (describe (run [Add ''a'' ''u1'' [1, 0], Add ''b'' ''u2'' [0, 1], Add ''a'' ''u3'' [1, 1],
                       Delete ''a''] fresh)) =
     Returned \<lparr>type_name = ''local'', dimensions = 2, vectors = 1\<rparr>"
  by (simp add: eval_defs)

text \<open>
  Claim C3 (the not-populated error), as the code has it: after any sequence of calls on
  a fresh index, \<^verbatim>\<open>query\<close> and \<^verbatim>\<open>delete\<close> raise their not-populated ValueError exactly
  when no \<^verbatim>\<open>add\<close> was ever made; in particular they do not raise it while an entry is
  stored. The guards test for \<^verbatim>\<open>None\<close>, not for zero entries.
\<close>

theorem not_populated_iff_never_added:
  "(fst (query score (run calls fresh) q k) = Raised (ValueError ''Index is not populated.'')
      \<longleftrightarrow> \<not> list_ex is_add calls) \<and>
   (fst (delete (run calls fresh) name) = Raised (ValueError ''Routes are not populated.'')
      \<longleftrightarrow> \<not> list_ex is_add calls) \<and>
   (0 < entry_count (run calls fresh) \<longrightarrow> list_ex is_add calls)"
proof -
  have al: "aligned (run calls fresh)"
    by (rule aligned_run [OF aligned_fresh])
  have ix: "index (run calls fresh) = None \<longleftrightarrow> \<not> list_ex is_add calls"
    using index_run_None [OF aligned_fresh, of calls] by (simp add: fresh_def)
  have rt: "routes (run calls fresh) = None \<longleftrightarrow> \<not> list_ex is_add calls"
    using routes_None_iff [OF al] ix by simp
  have "0 < entry_count (run calls fresh) \<longrightarrow> list_ex is_add calls"
    using ix by (auto simp: entry_count_def split: option.splits)
  then show ?thesis
    unfolding query_not_populated_iff delete_not_populated_iff ix rt by simp
qed

text \<open>
  The statement above applied to an index holding one entry.
\<close>

theorem not_populated_iff_never_added_witness:
  "0 < entry_count (run [Add ''a'' ''u'' [1, 0]] fresh) \<and>
   list_ex is_add [Add ''a'' ''u'' [1, 0]] \<and>
   fst (query dot (run [Add ''a'' ''u'' [1, 0]] fresh) [1, 0] 5) \<noteq> Raised (ValueError ''Index is not populated.'') \<and>
   fst (delete (run [Add ''a'' ''u'' [1, 0]] fresh) ''a'') \<noteq> Raised (ValueError ''Routes are not populated.'')"
proof -
  have h: "0 < entry_count (run [Add ''a'' ''u'' [1, 0]] fresh)"
    by (simp add: eval_defs)
  show ?thesis
    using h not_populated_iff_never_added [of dot "[Add ''a'' ''u'' [1, 0]]" "[1, 0]" 5 "''a''"]
    by simp
qed

text \<open>
  An index emptied by a deletion holds zero entries, yet neither guard fires: the array
  and the route list are empty, not \<^verbatim>\<open>None\<close>.
\<close>

theorem not_populated_after_emptying_counterexample:
  "entry_count (run [Add ''a'' ''u'' [1, 0], Delete ''a''] fresh) = 0 \<and>
   fst (delete (run [Add ''a'' ''u'' [1, 0], Delete ''a''] fresh) ''a'') \<noteq>
     Raised (ValueError ''Routes are not populated.'') \<and>
   fst (query dot (run [Add ''a'' ''u'' [1, 0], Delete ''a''] fresh) [1, 0] 5) \<noteq>
     Raised (ValueError ''Index is not populated.'')"
  by (simp add: eval_defs query_def similarity_matrix_def top_scores_def)

text \<open>
  Claim C4 (deleting a route that is not stored is a successful no-op). The stored
  sequences are unchanged, but the call raises NameError.
\<close>

theorem delete_nonexistent_raises:
  "delete (run [Add ''a'' ''u'' [1, 0]] fresh) ''nonexistent'' =
     (Raised (NameError ''i''), run [Add ''a'' ''u'' [1, 0]] fresh)"
  by (simp add: eval_defs)

text \<open>
  Claim C5 (query returns the top\_k highest-similarity entries, scores descending, each
  route the label of the entry with that score). For an index whose route list has one
  label per row, \<^verbatim>\<open>query\<close> returns normally and leaves the index as it was; the result
  is read off a list of \<open>min k n\<close> distinct row numbers: the scores of those rows,
  descending, their route labels in the same order, and no row left out scores higher
  than a row selected. The scoring function is arbitrary.
\<close>

theorem query_top_k:
  assumes "index self = Some a" and "routes self = Some rs" and "length rs = length (rows a)"
  shows "\<exists>indices.
           query score self q k =
             (Returned (map (\<lambda>i. score q (rows a ! i)) indices, map (\<lambda>i. rs ! i) indices), self) \<and>
           length indices = min k (length rs) \<and>
           distinct indices \<and>
           list_all (\<lambda>i. i < length rs) indices \<and>
           sorted_wrt (\<lambda>x y. y \<le> x) (map (\<lambda>i. score q (rows a ! i)) indices) \<and>
           (\<forall>j < length rs. \<forall>i \<in> set indices.
              j \<notin> set indices \<longrightarrow> score q (rows a ! j) \<le> score q (rows a ! i))"
proof -
  let ?sim = "similarity_matrix score q a"
  obtain scores indices where ts: "top_scores ?sim k = (scores, indices)"
    by (cases "top_scores ?sim k")
  have len: "length ?sim = length rs"
    by (simp add: similarity_matrix_def assms(3))
  have nth: "?sim ! i = score q (rows a ! i)" if "i < length rs" for i
    using that by (simp add: similarity_matrix_def assms(3))
  have range: "list_all (\<lambda>i. i < length rs) indices"
    using top_scores_members(1) [OF ts] len by simp
  have sc: "scores = map (\<lambda>i. score q (rows a ! i)) indices"
    using top_scores_members(2) [OF ts] range nth by (auto simp: list_all_iff)
  have res: "query score self q k = (Returned (scores, map (\<lambda>i. rs ! i) indices), self)"
    using assms(1,2) ts routes_at_nth [OF range] by (simp add: query_def)
  have n: "length indices = min k (length rs)"
    using top_scores_length [OF ts] len by simp
  have d: "distinct indices"
    by (rule top_scores_distinct [OF ts])
  have desc: "sorted_wrt (\<lambda>x y. y \<le> x) scores"
    by (rule top_scores_descending [OF ts])
  have high: "score q (rows a ! j) \<le> score q (rows a ! i)"
    if "j < length rs" "i \<in> set indices" "j \<notin> set indices" for i j
  proof -
    have "i < length rs"
      using range that(2) by (simp add: list_all_iff)
    then show ?thesis
      using top_scores_highest [OF ts, of j i] that len nth by simp
  qed
  show ?thesis
  proof (intro exI [of _ indices] conjI allI impI ballI)
    show "query score self q k =
      (Returned (map (\<lambda>i. score q (rows a ! i)) indices, map (\<lambda>i. rs ! i) indices), self)"
      using res sc by simp
    show "sorted_wrt (\<lambda>x y. y \<le> x) (map (\<lambda>i. score q (rows a ! i)) indices)"
      using desc sc by simp
  qed (use n d range high in simp_all)
qed

text \<open>
  The scenario of the claim under the dot product: greet [1, 0], greet [0.9, 0.1],
  bye [0, 1], queried with [1, 0] and top\_k = 2.
\<close>

theorem query_top_k_witness:
  "index (run [Add ''greet'' ''hello'' [1, 0], Add ''greet'' ''hi'' [9 / 10, 1 / 10],
               Add ''bye'' ''goodbye'' [0, 1]] fresh) =
     Some \<lparr>ncols = 2, rows = [[1, 0], [9 / 10, 1 / 10], [0, 1]]\<rparr> \<and>
   routes (run [Add ''greet'' ''hello'' [1, 0], Add ''greet'' ''hi'' [9 / 10, 1 / 10],
                Add ''bye'' ''goodbye'' [0, 1]] fresh) =
     Some [''greet'', ''greet'', ''bye''] \<and>
   length [''greet'', ''greet'', ''bye''] =
     length (rows \<lparr>ncols = 2, rows = [[1, 0], [9 / 10, 1 / 10], [0, 1]]\<rparr>) \<and>
   fst (query dot (run [Add ''greet'' ''hello'' [1, 0], Add ''greet'' ''hi'' [9 / 10, 1 / 10],
                        Add ''bye'' ''goodbye'' [0, 1]] fresh) [1, 0] 2) =
     Returned ([1, 9 / 10], [''greet'', ''greet'']) \<and>
   (\<exists>indices. fst (query dot (run [Add ''greet'' ''hello'' [1, 0], Add ''greet'' ''hi'' [9 / 10, 1 / 10],
                        Add ''bye'' ''goodbye'' [0, 1]] fresh) [1, 0] 2) =
      Returned (map (\<lambda>i. dot [1, 0] ([[1, 0], [9 / 10, 1 / 10], [0, 1]] ! i)) indices,
                map (\<lambda>i. [''greet'', ''greet'', ''bye''] ! i) indices) \<and>
      length indices = 2 \<and> distinct indices)"
proof -
  let ?s = "run [Add ''greet'' ''hello'' [1, 0], Add ''greet'' ''hi'' [9 / 10, 1 / 10],
               Add ''bye'' ''goodbye'' [0, 1]] fresh"
  have h1: "index ?s = Some \<lparr>ncols = 2, rows = [[1, 0], [9 / 10, 1 / 10], [0, 1]]\<rparr>"
    by (simp add: eval_defs)
  have h2: "routes ?s = Some [''greet'', ''greet'', ''bye'']"
    by (simp add: eval_defs)
  have h3: "length [''greet'', ''greet'', ''bye''] =
     length (rows \<lparr>ncols = 2, rows = [[1, 0], [9 / 10, 1 / 10], [0, 1 :: real]]\<rparr>)"
    by simp
  have ev: "fst (query dot ?s [1, 0] 2) = Returned ([1, 9 / 10], [''greet'', ''greet''])"
    by (simp add: eval_defs query_def similarity_matrix_def top_scores_def dot_def)
  obtain indices where
    "query dot ?s [1, 0] 2 =
       (Returned (map (\<lambda>i. dot [1, 0] (rows \<lparr>ncols = 2, rows = [[1, 0], [9 / 10, 1 / 10], [0, 1]]\<rparr> ! i)) indices,
                  map (\<lambda>i. [''greet'', ''greet'', ''bye''] ! i) indices), ?s)"
    "length indices = min 2 (length [''greet'', ''greet'', ''bye''])" "distinct indices"
    using query_top_k [OF h1 h2 h3, of dot "[1, 0]" 2] by blast
  then have "\<exists>indices. fst (query dot ?s [1, 0] 2) =
      Returned (map (\<lambda>i. dot [1, 0] ([[1, 0], [9 / 10, 1 / 10], [0, 1]] ! i)) indices,
                map (\<lambda>i. [''greet'', ''greet'', ''bye''] ! i) indices) \<and>
      length indices = 2 \<and> distinct indices"
    by (intro exI [of _ indices]) simp
  with h1 h2 h3 ev show ?thesis
    by blast
qed

text \<open>
  Claim C6 (describe): after N > 0 calls of \<^verbatim>\<open>add\<close> on a fresh index, each with a vector
  of dimension D, \<^verbatim>\<open>describe\<close> returns type local, dimensions D and vectors N; on
  a fresh index it returns dimensions 0 and vectors 0; it never changes the index.
\<close>

theorem describe_after_adds:
  assumes "calls \<noteq> []" and "list_all (adds_vector_of D) calls"
  shows "describe (run calls fresh) =
           (Returned \<lparr>type_name = ''local'', dimensions = D, vectors = length calls\<rparr>,
            run calls fresh) \<and>
         describe fresh = (Returned \<lparr>type_name = ''local'', dimensions = 0, vectors = 0\<rparr>, fresh) \<and>
         snd (describe self) = self"
proof -
  obtain c rest where cs: "calls = c # rest"
    using assms(1) by (cases calls) auto
  then obtain route utterance vector where c: "c = Add route utterance vector"
    and len: "length vector = D"
    using assms(2) by (cases c) auto
  have s: "index (exec c fresh) = Some (reshape_row vector)" "routes (exec c fresh) \<noteq> None"
    "utterances (exec c fresh) \<noteq> None"
    by (simp_all add: c add_def fresh_def)
  have "list_all (adds_vector_of (ncols (reshape_row vector))) rest"
    using assms(2) by (simp add: cs reshape_row_def len)
  from run_adds_populated [OF this s] obtain a' where
    "index (run rest (exec c fresh)) = Some a'" "ncols a' = D" "length (rows a') = Suc (length rest)"
    by (auto simp: reshape_row_def len)
  moreover have "run calls fresh = run rest (exec c fresh)"
    by (simp add: run_def cs)
  ultimately show ?thesis
    by (simp add: describe_def cs fresh_def)
qed

text \<open>
  Two vectors of dimension 2.
\<close>

theorem describe_after_adds_witness:
  "[Add ''a'' ''u1'' [1, 0], Add ''b'' ''u2'' [0, 1]] \<noteq> [] \<and>
   list_all (adds_vector_of 2) [Add ''a'' ''u1'' [1, 0], Add ''b'' ''u2'' [0, 1]] \<and>
   fst (describe (run [Add ''a'' ''u1'' [1, 0], Add ''b'' ''u2'' [0, 1]] fresh)) =
     Returned \<lparr>type_name = ''local'', dimensions = 2, vectors = 2\<rparr>"
proof -
  have h1: "[Add ''a'' ''u1'' [1, 0], Add ''b'' ''u2'' [0, 1]] \<noteq> []"
    by simp
  have h2: "list_all (adds_vector_of 2) [Add ''a'' ''u1'' [1, 0], Add ''b'' ''u2'' [0, 1]]"
    by simp
  show ?thesis
    using describe_after_adds [OF h1 h2] h2 by simp
qed

text \<open>
  Claim C7 (get\_routes returns the stored pairs in insertion order, excluding deleted
  entries). After \<^verbatim>\<open>add("a", "u1", [1, 0])\<close>, \<^verbatim>\<open>add("b", "u2", [0, 1])\<close> and
  \<^verbatim>\<open>delete("a")\<close> the route b is paired with the utterance of the deleted entry.
\<close>

theorem get_routes_after_delete_mispairs:
  "fst (get_routes (run [Add ''a'' ''u1'' [1, 0], Add ''b'' ''u2'' [0, 1], Delete ''a''] fresh)) =
     Returned [(''b'', ''u1'')]"
  by (simp add: eval_defs)

text \<open>
  Claim C8 (a delete that removes the last entries), as the code has it: \<^verbatim>\<open>describe\<close>
  afterwards reports vectors 0 and the dimension the array had before; the array is
  never set back to \<^verbatim>\<open>None\<close>.
\<close>

theorem delete_last_keeps_dimension:
  assumes "index self = Some a" and "routes self = Some rs" and "length rs = length (rows a)"
    and "list_all (\<lambda>route. route = name) rs"
  shows "fst (describe (snd (delete self name))) =
           Returned \<lparr>type_name = ''local'', dimensions = ncols a, vectors = 0\<rparr>"
proof -
  have "filter (\<lambda>(route, x). route \<noteq> name) (zip rs (rows a)) = []"
    using assms(4) by (auto simp: filter_empty_conv list_all_iff dest: set_zip_leftD)
  then show ?thesis
    using delete_aligned_state(1) [OF assms(1-3), of name] by (simp add: describe_def)
qed

text \<open>
  One entry of dimension 2, deleted.
\<close>

theorem delete_last_keeps_dimension_witness:
  "index (run [Add ''a'' ''u'' [1, 0]] fresh) = Some \<lparr>ncols = 2, rows = [[1, 0]]\<rparr> \<and>
   routes (run [Add ''a'' ''u'' [1, 0]] fresh) = Some [''a''] \<and>
   length [''a''] = length (rows \<lparr>ncols = 2, rows = [[1, 0]]\<rparr>) \<and>
   list_all (\<lambda>route. route = ''a'') [''a''] \<and>
   fst (describe (snd (delete (run [Add ''a'' ''u'' [1, 0]] fresh) ''a''))) =
     Returned \<lparr>type_name = ''local'', dimensions = 2, vectors = 0\<rparr>"
proof -
  have h1: "index (run [Add ''a'' ''u'' [1, 0]] fresh) = Some \<lparr>ncols = 2, rows = [[1, 0]]\<rparr>"
    by (simp add: eval_defs)
  have h2: "routes (run [Add ''a'' ''u'' [1, 0]] fresh) = Some [''a'']"
    by (simp add: eval_defs)
  have h3: "length [''a''] = length (rows \<lparr>ncols = 2, rows = [[1, 0]]\<rparr>)"
    by simp
  have h4: "list_all (\<lambda>route. route = ''a'') [''a'']"
    by simp
  show ?thesis
    using delete_last_keeps_dimension [OF h1 h2 h3 h4] h1 h2 by simp
qed

text \<open>
  After the only entry is deleted \<^verbatim>\<open>describe\<close> reports dimensions 2, not the 0 of
  a fresh index.
\<close>

theorem delete_last_dimension_counterexample:
  "fst (describe (run [Add ''a'' ''u'' [1, 0], Delete ''a''] fresh)) =
     Returned \<lparr>type_name = ''local'', dimensions = 2, vectors = 0\<rparr> \<and>
   fst (describe (run [Add ''a'' ''u'' [1, 0], Delete ''a''] fresh)) \<noteq> fst (describe fresh)"
  by (simp add: eval_defs)

text \<open>
  Claim C9 (get\_routes on an index that was never populated fails): \<^verbatim>\<open>zip\<close> raises
  TypeError on \<^verbatim>\<open>None\<close>.
\<close>

theorem get_routes_never_populated:
  "\<not> list_ex is_add calls \<Longrightarrow> get_routes (run calls fresh) = (Raised TypeError, fresh)"
  by (simp add: run_deletes_fresh) (simp add: get_routes_def fresh_def)

text \<open>
  A failed \<^verbatim>\<open>delete\<close> on a fresh index, then \<^verbatim>\<open>get_routes\<close>.
\<close>

theorem get_routes_never_populated_witness:
  "\<not> list_ex is_add [Delete ''a''] \<and> get_routes (run [Delete ''a''] fresh) = (Raised TypeError, fresh)"
proof -
  have h: "\<not> list_ex is_add [Delete ''a'']"
    by simp
  show ?thesis
    using h get_routes_never_populated [OF h] by simp
qed

text \<open>
  Claim C10 (query is read-only): whatever the index, the query vector and top\_k, and
  whether the call returns or raises, the index after the call is the index before it.
\<close>

theorem query_read_only: "snd (query score self q k) = self"
  by (simp add: query_def Let_def split: option.splits sum.splits prod.splits)

end
